theory Spec2Isabelle
  imports Complex_Main "HOL-Library.Word" "HOL-Library.AList"
begin

section \<open>Errors and results\<close>

text \<open>
  The exceptions the modelled code can raise, as values. A computation that can raise
  returns \<open>error + 'a\<close>, with \<open>Inl\<close> for the exception.
\<close>

datatype error = IndexError | OverflowError | ValueError | SystemExit

definition bind_res :: "error + 'a \<Rightarrow> ('a \<Rightarrow> error + 'b) \<Rightarrow> error + 'b" where
  "bind_res r f = (case r of Inl e \<Rightarrow> Inl e | Inr x \<Rightarrow> f x)"

section \<open>Constants of \<open>ContributionGenerator.__init__\<close>\<close>

definition GITHUB_WEEKS :: nat where
  "GITHUB_WEEKS = 52"

definition GITHUB_DAYS :: nat where
  "GITHUB_DAYS = 7"

definition MAX_INTENSITY :: int where
  "MAX_INTENSITY = 4"

section \<open>Calendar timestamps\<close>

text \<open>
  A naive \<open>datetime\<close>: the calendar date is held as its proleptic Gregorian ordinal
  (\<open>date.toordinal()\<close>: day 1 is 0001-01-01, a Monday), followed by the time of day.
  The library supports the ordinals 1 to 3652059 (9999-12-31) and raises
  \<open>OverflowError\<close> outside; a \<open>timedelta\<close> holds at most 999999999 days.
\<close>

record datetime =
  ordinal :: int
  hour :: nat
  minute :: nat
  second :: nat
  microsecond :: nat

definition MAXORD :: int where
  "MAXORD = 3652059"

definition valid_datetime :: "datetime \<Rightarrow> bool" where
  "valid_datetime t \<longleftrightarrow>
     1 \<le> ordinal t \<and> ordinal t \<le> MAXORD \<and>
     hour t < 24 \<and> minute t < 60 \<and> second t < 60 \<and> microsecond t < 1000000"

text \<open>\<open>timedelta(weeks=w, days=d)\<close>, as its number of days.\<close>

definition timedelta :: "int \<Rightarrow> int \<Rightarrow> error + int" where
  "timedelta weeks days =
     (let d = 7 * weeks + days
      in if \<bar>d\<bar> \<le> 999999999 then Inr d else Inl OverflowError)"

text \<open>\<open>t + delta\<close> and \<open>t - delta\<close> for a delta of whole days: the time of day is kept.\<close>

definition dt_add :: "datetime \<Rightarrow> int \<Rightarrow> error + datetime" where
  "dt_add t d =
     (let n = ordinal t + d
      in if 1 \<le> n \<and> n \<le> MAXORD then Inr (t\<lparr>ordinal := n\<rparr>) else Inl OverflowError)"

definition dt_sub :: "datetime \<Rightarrow> int \<Rightarrow> error + datetime" where
  "dt_sub t d = dt_add t (- d)"

text \<open>\<open>t.weekday()\<close>: Monday is 0 and Sunday is 6.\<close>

definition weekday :: "datetime \<Rightarrow> int" where
  "weekday t = (ordinal t + 6) mod 7"

text \<open>\<open>t.replace(hour=h, minute=m)\<close>: the other fields are kept.\<close>

definition dt_replace :: "datetime \<Rightarrow> nat \<Rightarrow> nat \<Rightarrow> error + datetime" where
  "dt_replace t h m =
     (if h < 24 \<and> m < 60 then Inr (t\<lparr>hour := h, minute := m\<rparr>) else Inl ValueError)"

text \<open>
  \<open>a <= b\<close> on naive datetimes: lexicographic on date, hour, minute, second,
  microsecond.
\<close>

definition dt_le :: "datetime \<Rightarrow> datetime \<Rightarrow> bool" where
  "dt_le a b \<longleftrightarrow>
     ordinal a < ordinal b \<or> (ordinal a = ordinal b \<and>
      (hour a < hour b \<or> (hour a = hour b \<and>
       (minute a < minute b \<or> (minute a = minute b \<and>
        (second a < second b \<or> (second a = second b \<and>
          microsecond a \<le> microsecond b)))))))"

section \<open>The contribution matrix\<close>

text \<open>
  A two-dimensional array as the list of its rows. \<open>matrix[day, week]\<close> raises
  \<open>IndexError\<close> outside the array (the loops only use indices from 0).
\<close>

type_synonym matrix = "int list list"

definition matrix_get :: "matrix \<Rightarrow> nat \<Rightarrow> nat \<Rightarrow> error + int" where
  "matrix_get m day week =
     (if day < length m \<and> week < length (m ! day) then Inr (m ! day ! week)
      else Inl IndexError)"

definition has_shape :: "'a list list \<Rightarrow> nat \<Rightarrow> nat \<Rightarrow> bool" where
  "has_shape m rows cols \<longleftrightarrow> length m = rows \<and> list_all (\<lambda>r. length r = cols) m"

text \<open>The IntensityGrid of the specification: 7 rows, 52 columns, cells from 0 to 4.\<close>

definition intensity_grid :: "matrix \<Rightarrow> bool" where
  "intensity_grid m \<longleftrightarrow>
     has_shape m GITHUB_DAYS GITHUB_WEEKS \<and>
     list_all (list_all (\<lambda>v. 0 \<le> v \<and> v \<le> MAX_INTENSITY)) m"

section \<open>\<open>generate_commit_dates\<close>\<close>

text \<open>
  Lines 324 to 331: the start date. \<open>today\<close> is \<open>datetime.now()\<close>, read once.
\<close>

definition start_date_of :: "datetime \<Rightarrow> int \<Rightarrow> error + datetime" where
  "start_date_of today weeks_ago =
     bind_res (timedelta (52 + weeks_ago) 0) (\<lambda>delta.
     bind_res (dt_sub today delta) (\<lambda>start_date.
       let days_since_sunday = weekday start_date + 1;
           days_since_sunday = (if days_since_sunday = 7 then 0 else days_since_sunday)
       in bind_res (timedelta 0 days_since_sunday) (\<lambda>back.
            dt_sub start_date back)))"

text \<open>The innermost loop, \<open>for commit_num in range(intensity)\<close>.\<close>

fun commit_num_loop :: "datetime \<Rightarrow> nat list \<Rightarrow> datetime list \<Rightarrow> error + datetime list" where
  "commit_num_loop commit_date [] commits = Inr commits"
| "commit_num_loop commit_date (commit_num # rest) commits =
     (case dt_replace commit_date (9 + (commit_num * 3) mod 14) ((commit_num * 17) mod 60) of
        Inl e \<Rightarrow> Inl e
      | Inr commit_time \<Rightarrow> commit_num_loop commit_date rest (commits @ [commit_time]))"

text \<open>The body of the two outer loops, for one cell.\<close>

definition cell_step :: "datetime \<Rightarrow> matrix \<Rightarrow> nat \<Rightarrow> nat \<Rightarrow> datetime list \<Rightarrow> error + datetime list" where
  "cell_step start_date m week day commits =
     bind_res (matrix_get m day week) (\<lambda>intensity.
       if intensity > 0 then
         bind_res (timedelta (int week) (int day)) (\<lambda>delta.
         bind_res (dt_add start_date delta) (\<lambda>commit_date.
           commit_num_loop commit_date [0..<nat intensity] commits))
       else Inr commits)"

fun day_loop :: "datetime \<Rightarrow> matrix \<Rightarrow> nat \<Rightarrow> nat list \<Rightarrow> datetime list \<Rightarrow> error + datetime list" where
  "day_loop start_date m week [] commits = Inr commits"
| "day_loop start_date m week (day # days) commits =
     (case cell_step start_date m week day commits of
        Inl e \<Rightarrow> Inl e
      | Inr commits' \<Rightarrow> day_loop start_date m week days commits')"

fun week_loop :: "datetime \<Rightarrow> matrix \<Rightarrow> nat list \<Rightarrow> datetime list \<Rightarrow> error + datetime list" where
  "week_loop start_date m [] commits = Inr commits"
| "week_loop start_date m (week # weeks) commits =
     (case day_loop start_date m week [0..<GITHUB_DAYS] commits of
        Inl e \<Rightarrow> Inl e
      | Inr commits' \<Rightarrow> week_loop start_date m weeks commits')"

definition generate_commit_dates :: "datetime \<Rightarrow> matrix \<Rightarrow> int \<Rightarrow> error + datetime list" where
  "generate_commit_dates today contribution_matrix weeks_ago =
     bind_res (start_date_of today weeks_ago) (\<lambda>start_date.
       week_loop start_date contribution_matrix [0..<GITHUB_WEEKS] [])"

section \<open>The template registry\<close>

text \<open>
  \<open>self.templates\<close>: a dict from template names to patterns (lists of rows of integers),
  as the list of its items in insertion order. \<open>_load_templates\<close> returns the built-in
  ones.
\<close>

type_synonym registry = "(string \<times> int list list) list"

definition builtin_templates :: registry where
  "builtin_templates =
   [(''skull'',
     [[0, 0, 2, 2, 2, 2, 0, 0],
      [0, 2, 4, 2, 2, 4, 2, 0],
      [2, 4, 4, 2, 2, 4, 4, 2],
      [2, 2, 2, 4, 4, 2, 2, 2],
      [2, 4, 2, 2, 2, 2, 4, 2],
      [0, 2, 4, 4, 4, 4, 2, 0],
      [0, 0, 2, 2, 2, 2, 0, 0]]),
    (''heart'',
     [[0, 2, 2, 0, 2, 2, 0],
      [2, 4, 4, 2, 4, 4, 2],
      [4, 4, 4, 4, 4, 4, 4],
      [4, 4, 4, 4, 4, 4, 4],
      [2, 4, 4, 4, 4, 4, 2],
      [0, 2, 4, 4, 4, 2, 0],
      [0, 0, 2, 2, 2, 0, 0]]),
    (''smile'',
     [[0, 0, 2, 2, 2, 2, 0, 0],
      [0, 2, 0, 2, 2, 0, 2, 0],
      [2, 0, 4, 0, 0, 4, 0, 2],
      [2, 0, 0, 0, 0, 0, 0, 2],
      [2, 0, 4, 0, 0, 4, 0, 2],
      [2, 0, 0, 4, 4, 0, 0, 2],
      [0, 2, 0, 0, 0, 0, 2, 0],
      [0, 0, 2, 2, 2, 2, 0, 0]]),
    (''diamond'',
     [[0, 0, 0, 2, 0, 0, 0],
      [0, 0, 2, 4, 2, 0, 0],
      [0, 2, 4, 4, 4, 2, 0],
      [2, 4, 4, 4, 4, 4, 2],
      [0, 2, 4, 4, 4, 2, 0],
      [0, 0, 2, 4, 2, 0, 0],
      [0, 0, 0, 2, 0, 0, 0]]),
    (''checkmark'',
     [[0, 0, 0, 0, 0, 0, 2],
      [0, 0, 0, 0, 0, 2, 4],
      [0, 0, 0, 0, 2, 4, 2],
      [2, 0, 0, 2, 4, 2, 0],
      [4, 2, 2, 4, 2, 0, 0],
      [2, 4, 4, 2, 0, 0, 0],
      [0, 2, 2, 0, 0, 0, 0]])]"

section \<open>Arrays\<close>

text \<open>
  \<open>np.array\<close> of a list of rows: the empty list gives a one-dimensional array of shape
  \<open>(0,)\<close>, rows of one length give a two-dimensional array, and rows of different lengths
  are refused with \<open>ValueError\<close> (older versions of the library build a one-dimensional
  array of objects instead, on which the operations below fail likewise).
\<close>

datatype ndarray = Array1 "int list" | Array2 "int list list"

definition np_array :: "int list list \<Rightarrow> error + ndarray" where
  "np_array rows =
     (case rows of
        [] \<Rightarrow> Inr (Array1 [])
      | r # rs \<Rightarrow>
          if list_all (\<lambda>x. length x = length r) rs then Inr (Array2 rows) else Inl ValueError)"

text \<open>\<open>a.shape[0]\<close> and \<open>a.shape[1]\<close>.\<close>

fun shape0 :: "ndarray \<Rightarrow> nat" where
  "shape0 (Array1 xs) = length xs"
| "shape0 (Array2 m) = length m"

fun shape1 :: "ndarray \<Rightarrow> error + nat" where
  "shape1 (Array1 xs) = Inl IndexError"
| "shape1 (Array2 m) = Inr (case m of [] \<Rightarrow> 0 | r # rs \<Rightarrow> length r)"

text \<open>
  \<open>np.pad(a, ((0, n), (0, 0)), 'constant')\<close> and \<open>np.pad(a, ((0, 0), (0, n)), 'constant')\<close>:
  zero rows below, zero columns on the right. A pad width for two axes does not fit a
  one-dimensional array.
\<close>

fun pad_rows :: "ndarray \<Rightarrow> nat \<Rightarrow> error + ndarray" where
  "pad_rows (Array1 xs) n = Inl ValueError"
| "pad_rows (Array2 m) n =
     Inr (Array2 (m @ replicate n (replicate (case m of [] \<Rightarrow> 0 | r # rs \<Rightarrow> length r) 0)))"

fun pad_cols :: "ndarray \<Rightarrow> nat \<Rightarrow> error + ndarray" where
  "pad_cols (Array1 xs) n = Inl ValueError"
| "pad_cols (Array2 m) n = Inr (Array2 (map (\<lambda>r. r @ replicate n 0) m))"

text \<open>\<open>a[:, :n]\<close> and \<open>a[:rows, :cols]\<close>; two indices are too many for one dimension.\<close>

fun slice_cols :: "ndarray \<Rightarrow> nat \<Rightarrow> error + ndarray" where
  "slice_cols (Array1 xs) n = Inl IndexError"
| "slice_cols (Array2 m) n = Inr (Array2 (map (take n) m))"

fun slice_rows_cols :: "ndarray \<Rightarrow> nat \<Rightarrow> nat \<Rightarrow> error + matrix" where
  "slice_rows_cols (Array1 xs) rows cols = Inl IndexError"
| "slice_rows_cols (Array2 m) rows cols = Inr (map (take cols) (take rows m))"

section \<open>\<open>load_template\<close> and \<open>load_and_process_image\<close>\<close>

text \<open>A missing template name prints the names and ends the process (\<open>sys.exit(1)\<close>).\<close>

definition load_template :: "registry \<Rightarrow> string \<Rightarrow> error + matrix" where
  "load_template templates template_name =
     (case map_of templates template_name of
        None \<Rightarrow> Inl SystemExit
      | Some rows \<Rightarrow>
          bind_res (np_array rows) (\<lambda>pattern.
          bind_res (if shape0 pattern < GITHUB_DAYS
                    then pad_rows pattern (GITHUB_DAYS - shape0 pattern)
                    else Inr pattern) (\<lambda>pattern.
          bind_res (shape1 pattern) (\<lambda>width.
          bind_res (if width < GITHUB_WEEKS then pad_cols pattern (GITHUB_WEEKS - width)
                    else if width > GITHUB_WEEKS then slice_cols pattern GITHUB_WEEKS
                    else Inr pattern) (\<lambda>pattern.
            slice_rows_cols pattern GITHUB_DAYS GITHUB_WEEKS)))))"

text \<open>
  Lines 261 to 267 for one pixel of the resized image, an unsigned byte: inverted in
  bytes, divided by 255.0, multiplied by \<open>MAX_INTENSITY\<close>, truncated by \<open>astype(int)\<close>.
  The quotient is taken exactly: the double-precision result differs from it by a
  relative error below \<open>2 ^ -52\<close>, while an exact value that is not an integer is at
  least \<open>1 / 255\<close> away from the nearest one, so the truncation is the same.
\<close>

definition quantize_pixel :: "8 word \<Rightarrow> int" where
  "quantize_pixel v = \<lfloor>real (unat (255 - v)) / 255 * real_of_int MAX_INTENSITY\<rfloor>"

text \<open>
  \<open>load_and_process_image\<close>. \<open>img\<close> is the grayscale image (rows of bytes) rendered from
  the text or opened from the path; \<open>resize\<close> stands for \<open>img.resize(size, LANCZOS)\<close> of the
  imaging library followed by \<open>np.array\<close>, \<open>size\<close> being width and height.
  A template name that is \<open>None\<close> or empty is false. Every exception is caught and ends
  the process.
\<close>

definition load_and_process_image ::
  "(8 word list list \<Rightarrow> nat \<times> nat \<Rightarrow> 8 word list list) \<Rightarrow> registry \<Rightarrow>
     8 word list list \<Rightarrow> string option \<Rightarrow> error + matrix" where
  "load_and_process_image resize templates img template =
     (case template of
        Some (c # cs) \<Rightarrow>
          (case load_template templates (c # cs) of
             Inl e \<Rightarrow> Inl SystemExit
           | Inr m \<Rightarrow> Inr m)
      | _ \<Rightarrow>
          (let img_array = resize img (GITHUB_WEEKS, GITHUB_DAYS)
           in Inr (map (map quantize_pixel) img_array)))"

section \<open>\<open>push_to_github\<close>\<close>

text \<open>
  What a call ends with. \<open>Created\<close> stands for the call of \<open>create_git_repository\<close>, which
  makes one commit per date; every other outcome returns before it. \<open>git_ok\<close> is the
  result of \<open>check_git_requirements\<close>, \<open>confirmed\<close> says whether the user typed yes.
  The messages and the quick preview printed between the steps are left out.
\<close>

datatype push_outcome =
    GitUnavailable
  | Exited
  | Uncaught error
  | NoCommits
  | DryRun nat
  | Cancelled
  | Created "datetime list"

definition push_to_github ::
  "bool \<Rightarrow> datetime \<Rightarrow> (8 word list list \<Rightarrow> nat \<times> nat \<Rightarrow> 8 word list list) \<Rightarrow> registry \<Rightarrow>
     8 word list list \<Rightarrow> string option \<Rightarrow> int \<Rightarrow> bool \<Rightarrow> bool \<Rightarrow> push_outcome" where
  "push_to_github git_ok today resize templates img template weeks_ago dry_run confirmed =
     (if \<not> git_ok then GitUnavailable
      else case load_and_process_image resize templates img template of
        Inl e \<Rightarrow> Exited
      | Inr contribution_matrix \<Rightarrow>
          (case generate_commit_dates today contribution_matrix weeks_ago of
             Inl e \<Rightarrow> Uncaught e
           | Inr commit_dates \<Rightarrow>
               if commit_dates = [] then NoCommits
               else if dry_run then DryRun (length commit_dates)
               else if \<not> confirmed then Cancelled
               else Created commit_dates))"

section \<open>\<open>import_templates\<close> and \<open>export_templates\<close>\<close>

text \<open>
  What \<open>json.load\<close> makes of a file: a dict of patterns, in the order of the document, or
  a value that is not a dict; a file that is not JSON makes it raise. The files are a
  map from paths to contents.
\<close>

datatype document = JObject "(string \<times> int list list) list" | JOther

datatype file_content = Json document | NotJson

type_synonym files = "string \<rightharpoonup> file_content"

datatype message = Imported nat | InvalidFormat | ImportError | Exported nat | ExportError

text \<open>
  \<open>d.update(data)\<close>: the items of \<open>data\<close> in their order; a key already in \<open>d\<close> keeps
  its place and takes the new value, a new key goes to the end.
\<close>

definition dict_update :: "registry \<Rightarrow> (string \<times> int list list) list \<Rightarrow> registry" where
  "dict_update d data = fold (\<lambda>(k, v). AList.update k v) data d"

definition import_templates :: "registry \<Rightarrow> files \<Rightarrow> string \<Rightarrow> registry \<times> message" where
  "import_templates templates fs json_path =
     (case fs json_path of
        None \<Rightarrow> (templates, ImportError)
      | Some NotJson \<Rightarrow> (templates, ImportError)
      | Some (Json JOther) \<Rightarrow> (templates, InvalidFormat)
      | Some (Json (JObject data)) \<Rightarrow>
          (dict_update templates data, Imported (length (dict_update [] data))))"

text \<open>\<open>writable\<close> says whether \<open>open(json_path, 'w')\<close> succeeds.\<close>

definition export_templates :: "registry \<Rightarrow> files \<Rightarrow> bool \<Rightarrow> string \<Rightarrow> files \<times> message" where
  "export_templates templates fs writable json_path =
     (if writable then (fs(json_path \<mapsto> Json (JObject templates)), Exported (length templates))
      else (fs, ExportError))"

text \<open>
  The registries a process can hold: the built-in one of a new generator, changed by
  imports only.
\<close>

inductive registry_state :: "registry \<Rightarrow> bool" where
  fresh: "registry_state builtin_templates"
| imported: "registry_state r \<Longrightarrow> registry_state (dict_update r data)"

section \<open>The schedule in closed form\<close>

text \<open>
  Day 1 is a Monday, so the Sundays are the ordinals divisible by 7.
\<close>

definition sunday_on_or_before :: "int \<Rightarrow> int" where
  "sunday_on_or_before n = n - n mod 7"

text \<open>
  The dates \<open>generate_commit_dates\<close> computes must exist in the calendar: the current
  moment is a datetime, and the offset date \<open>today - (52 + weeks_ago) weeks\<close> lies
  between the calendar's first Sunday (ordinal 7) and its last day. For the events, the
  52 weeks after the offset date's Sunday must exist as well.
\<close>

definition anchor_in_range :: "datetime \<Rightarrow> int \<Rightarrow> bool" where
  "anchor_in_range today weeks_ago \<longleftrightarrow>
     valid_datetime today \<and>
     7 \<le> ordinal today - 7 * (52 + weeks_ago) \<and>
     ordinal today - 7 * (52 + weeks_ago) \<le> MAXORD"

definition schedule_in_range :: "datetime \<Rightarrow> int \<Rightarrow> bool" where
  "schedule_in_range today weeks_ago \<longleftrightarrow>
     valid_datetime today \<and>
     7 \<le> ordinal today - 7 * (52 + weeks_ago) \<and>
     ordinal today - 7 * (52 + weeks_ago) + 363 \<le> MAXORD"

text \<open>The events of one cell, and of the grid in the order of the traversal.\<close>

definition cell_events :: "datetime \<Rightarrow> matrix \<Rightarrow> nat \<Rightarrow> nat \<Rightarrow> datetime list" where
  "cell_events start_date m week day =
     map (\<lambda>k. start_date\<lparr>ordinal := ordinal start_date + 7 * int week + int day,
                          hour := 9 + (k * 3) mod 14, minute := (k * 17) mod 60\<rparr>)
       [0..<nat (m ! day ! week)]"

definition grid_events :: "datetime \<Rightarrow> matrix \<Rightarrow> datetime list" where
  "grid_events start_date m =
     concat (map (\<lambda>week. concat (map (cell_events start_date m week) [0..<GITHUB_DAYS]))
       [0..<GITHUB_WEEKS])"

text \<open>
  What \<open>load_template\<close> makes of a two-dimensional pattern whose rows have the given
  width: zero rows below, zero columns on the right, cut to 7 rows and 52 columns.
\<close>

definition pad_truncate :: "int list list \<Rightarrow> nat \<Rightarrow> matrix" where
  "pad_truncate rows width =
     map (take GITHUB_WEEKS)
       (take GITHUB_DAYS
          (map (\<lambda>r. r @ replicate (GITHUB_WEEKS - width) 0)
             (rows @ replicate (GITHUB_DAYS - length rows) (replicate width 0))))"

text \<open>What the traversal needs of one cell to pass it without an exception.\<close>

definition cell_ok :: "datetime \<Rightarrow> matrix \<Rightarrow> nat \<Rightarrow> nat \<Rightarrow> bool" where
  "cell_ok start_date m week day \<longleftrightarrow>
     day < length m \<and> week < length (m ! day) \<and>
     (0 < m ! day ! week \<longrightarrow>
        1 \<le> ordinal start_date + 7 * int week + int day \<and>
        ordinal start_date + 7 * int week + int day \<le> MAXORD \<and>
        7 * int week + int day \<le> 999999999)"

section \<open>The loops compute the closed form\<close>

lemma commit_num_loop_eq:
  "commit_num_loop cd ks commits =
     Inr (commits @ map (\<lambda>k. cd\<lparr>hour := 9 + (k * 3) mod 14, minute := (k * 17) mod 60\<rparr>) ks)"
proof (induction ks arbitrary: commits)
  case Nil
  show ?case by simp
next
  case (Cons k ks)
  have "(k * 3) mod 14 < 14" by simp
  then have h: "9 + (k * 3) mod 14 < 24" by linarith
  show ?case by (simp add: dt_replace_def h Cons.IH)
qed

lemma cell_step_eq:
  assumes "cell_ok start_date m week day"
  shows "cell_step start_date m week day commits = Inr (commits @ cell_events start_date m week day)"
proof (cases "0 < m ! day ! week")
  case True
  with assms show ?thesis
    by (simp add: cell_ok_def cell_step_def matrix_get_def bind_res_def timedelta_def dt_add_def
        Let_def commit_num_loop_eq cell_events_def add.assoc)
next
  case False
  with assms show ?thesis
    by (simp add: cell_ok_def cell_step_def matrix_get_def bind_res_def cell_events_def)
qed

lemma day_loop_eq:
  assumes "\<forall>day \<in> set ds. cell_ok start_date m week day"
  shows "day_loop start_date m week ds commits =
      Inr (commits @ concat (map (cell_events start_date m week) ds))"
  using assms
  by (induction ds arbitrary: commits) (simp_all add: cell_step_eq)

lemma week_loop_eq:
  assumes "\<forall>week \<in> set ws. \<forall>day < GITHUB_DAYS. cell_ok start_date m week day"
  shows "week_loop start_date m ws commits =
      Inr (commits @ concat (map (\<lambda>week. concat (map (cell_events start_date m week) [0..<GITHUB_DAYS])) ws))"
  using assms
  by (induction ws arbitrary: commits) (simp_all add: day_loop_eq)

lemma start_date_of_eq:
  assumes "anchor_in_range today weeks_ago"
  shows "start_date_of today weeks_ago =
     Inr (today\<lparr>ordinal := sunday_on_or_before (ordinal today - 7 * (52 + weeks_ago))\<rparr>)"
proof -
  define s where "s = ordinal today - 7 * (52 + weeks_ago)"
  have r: "1 \<le> ordinal today" "ordinal today \<le> MAXORD" "7 \<le> s" "s \<le> MAXORD"
    using assms by (simp_all add: anchor_in_range_def valid_datetime_def s_def)
  have m7: "0 \<le> s mod 7" "s mod 7 < 7" by simp_all
  have s7: "1 \<le> s - s mod 7" using r(3) m7 by linarith
  have td: "\<bar>7 * (52 + weeks_ago)\<bar> \<le> 999999999"
    using r unfolding s_def MAXORD_def by linarith
  have t1: "timedelta (52 + weeks_ago) 0 = Inr (7 * (52 + weeks_ago))"
    unfolding timedelta_def Let_def using td by simp
  have t2: "dt_sub today (7 * (52 + weeks_ago)) = Inr (today\<lparr>ordinal := s\<rparr>)"
    unfolding dt_sub_def dt_add_def Let_def using r by (simp add: s_def)
  have t3: "(if weekday (today\<lparr>ordinal := s\<rparr>) + 1 = 7 then 0
             else weekday (today\<lparr>ordinal := s\<rparr>) + 1) = s mod 7"
    unfolding weekday_def by simp presburger
  have t4: "timedelta 0 (s mod 7) = Inr (s mod 7)"
    unfolding timedelta_def Let_def using m7 by simp
  have t5: "dt_sub (today\<lparr>ordinal := s\<rparr>) (s mod 7) = Inr (today\<lparr>ordinal := s - s mod 7\<rparr>)"
    unfolding dt_sub_def dt_add_def Let_def using r m7 s7 by simp
  show ?thesis
    unfolding start_date_of_def Let_def t1 bind_res_def sum.case t2 t3 t4 t5
      sunday_on_or_before_def s_def [symmetric] ..
qed

lemma has_shape_nth:
  assumes "has_shape m rows cols" and "day < rows"
  shows "day < length m" and "length (m ! day) = cols"
  using assms by (simp_all add: has_shape_def list_all_length)

lemma generate_commit_dates_eq:
  assumes shape: "has_shape m GITHUB_DAYS GITHUB_WEEKS"
    and anchor: "anchor_in_range today weeks_ago"
    and cells: "\<forall>day < GITHUB_DAYS. \<forall>week < GITHUB_WEEKS. 0 < m ! day ! week \<longrightarrow>
       sunday_on_or_before (ordinal today - 7 * (52 + weeks_ago)) + 7 * int week + int day \<le> MAXORD"
  shows "generate_commit_dates today m weeks_ago =
     Inr (grid_events (today\<lparr>ordinal := sunday_on_or_before (ordinal today - 7 * (52 + weeks_ago))\<rparr>) m)"
proof -
  define a where "a = today\<lparr>ordinal := sunday_on_or_before (ordinal today - 7 * (52 + weeks_ago))\<rparr>"
  have a1: "1 \<le> ordinal a"
  proof -
    define s where "s = ordinal today - 7 * (52 + weeks_ago)"
    have "s mod 7 < 7" by simp
    moreover have "7 \<le> s" using anchor by (simp add: anchor_in_range_def s_def)
    ultimately have "1 \<le> s - s mod 7" by linarith
    then show ?thesis by (simp add: a_def sunday_on_or_before_def s_def)
  qed
  have ok: "cell_ok a m week day" if "week < GITHUB_WEEKS" "day < GITHUB_DAYS" for week day
  proof -
    have "day < length m" "week < length (m ! day)"
      using has_shape_nth [OF shape that(2)] that(1) by simp_all
    moreover have "7 * int week + int day \<le> 999999999"
      using that by (simp add: GITHUB_WEEKS_def GITHUB_DAYS_def)
    moreover have "0 < m ! day ! week \<Longrightarrow> ordinal a + 7 * int week + int day \<le> MAXORD"
      using cells that by (simp add: a_def)
    moreover have "1 \<le> ordinal a + 7 * int week + int day"
      using a1 by linarith
    ultimately show ?thesis by (simp add: cell_ok_def)
  qed
  have "week_loop a m [0..<GITHUB_WEEKS] [] = Inr (grid_events a m)"
    using ok by (simp add: week_loop_eq grid_events_def)
  then show ?thesis
    by (simp add: generate_commit_dates_def start_date_of_eq [OF anchor] bind_res_def a_def)
qed

section \<open>Properties of the closed form\<close>

lemma sorted_wrt_concat_map:
  assumes "\<And>x. x \<in> set xs \<Longrightarrow> sorted_wrt R (f x)"
    and "sorted_wrt (\<lambda>x y. \<forall>a \<in> set (f x). \<forall>b \<in> set (f y). R a b) xs"
  shows "sorted_wrt R (concat (map f xs))"
  using assms by (induction xs) (auto simp: sorted_wrt_append)

lemma sorted_wrt_upt_less:
  assumes "\<And>i j. i < j \<Longrightarrow> j < n \<Longrightarrow> P i j"
  shows "sorted_wrt P [0..<n]"
  using assms by (simp add: sorted_wrt_iff_nth_less)

lemma concat_map_single:
  "concat (map (\<lambda>i. if i = d then X else []) [0..<n]) = (if d < n then X else [])"
  by (induction n) auto

lemma cell_events_ordinal:
  "c \<in> set (cell_events start_date m week day) \<Longrightarrow>
     ordinal c = ordinal start_date + 7 * int week + int day"
  by (auto simp: cell_events_def)

lemma intensity_grid_nth:
  assumes "intensity_grid m" and "day < GITHUB_DAYS" and "week < GITHUB_WEEKS"
  shows "0 \<le> m ! day ! week" and "m ! day ! week \<le> 4"
  using assms
  by (simp_all add: intensity_grid_def has_shape_def list_all_length MAX_INTENSITY_def)

lemma cell_events_sorted:
  assumes "m ! day ! week \<le> 4"
  shows "sorted_wrt dt_le (cell_events start_date m week day)"
proof -
  have "dt_le (start_date\<lparr>ordinal := n, hour := 9 + (i * 3) mod 14, minute := (i * 17) mod 60\<rparr>)
          (start_date\<lparr>ordinal := n, hour := 9 + (j * 3) mod 14, minute := (j * 17) mod 60\<rparr>)"
    if "i < j" "j < nat (m ! day ! week)" for i j n
  proof -
    have "j < 4" using that(2) assms by linarith
    with that(1) have "(i * 3) mod 14 = i * 3" "(j * 3) mod 14 = j * 3" by simp_all
    with that(1) show ?thesis by (simp add: dt_le_def)
  qed
  then show ?thesis
    unfolding cell_events_def sorted_wrt_map by (intro sorted_wrt_upt_less) simp
qed

lemma week_events_ordinal:
  assumes "c \<in> set (concat (map (cell_events start_date m week) [0..<GITHUB_DAYS]))"
  shows "ordinal start_date + 7 * int week \<le> ordinal c"
    and "ordinal c \<le> ordinal start_date + 7 * int week + 6"
  using assms by (auto simp: GITHUB_DAYS_def dest!: cell_events_ordinal)

lemma week_events_sorted:
  assumes "\<And>day. day < GITHUB_DAYS \<Longrightarrow> m ! day ! week \<le> 4"
  shows "sorted_wrt dt_le (concat (map (cell_events start_date m week) [0..<GITHUB_DAYS]))"
proof (rule sorted_wrt_concat_map)
  fix day assume "day \<in> set [0..<GITHUB_DAYS]"
  then show "sorted_wrt dt_le (cell_events start_date m week day)"
    using assms by (simp add: cell_events_sorted)
next
  show "sorted_wrt (\<lambda>x y. \<forall>a\<in>set (cell_events start_date m week x).
          \<forall>b\<in>set (cell_events start_date m week y). dt_le a b) [0..<GITHUB_DAYS]"
  proof (rule sorted_wrt_upt_less, intro ballI)
    fix i j a b
    assume "i < j" and "a \<in> set (cell_events start_date m week i)"
      and "b \<in> set (cell_events start_date m week j)"
    then have "ordinal a < ordinal b"
      by (simp add: cell_events_ordinal)
    then show "dt_le a b" by (simp add: dt_le_def)
  qed
qed

lemma grid_events_sorted:
  assumes "intensity_grid m"
  shows "sorted_wrt dt_le (grid_events start_date m)"
  unfolding grid_events_def
proof (rule sorted_wrt_concat_map)
  fix week assume "week \<in> set [0..<GITHUB_WEEKS]"
  then show "sorted_wrt dt_le (concat (map (cell_events start_date m week) [0..<GITHUB_DAYS]))"
    using intensity_grid_nth(2) [OF assms] by (intro week_events_sorted) simp
next
  show "sorted_wrt (\<lambda>x y. \<forall>a\<in>set (concat (map (cell_events start_date m x) [0..<GITHUB_DAYS])).
          \<forall>b\<in>set (concat (map (cell_events start_date m y) [0..<GITHUB_DAYS])). dt_le a b)
        [0..<GITHUB_WEEKS]"
  proof (rule sorted_wrt_upt_less, intro ballI)
    fix i j a b
    assume ij: "i < j"
      and a: "a \<in> set (concat (map (cell_events start_date m i) [0..<GITHUB_DAYS]))"
      and b: "b \<in> set (concat (map (cell_events start_date m j) [0..<GITHUB_DAYS]))"
    have "ordinal a \<le> ordinal start_date + 7 * int i + 6"
      using week_events_ordinal(2) [OF a] .
    moreover have "ordinal start_date + 7 * int j \<le> ordinal b"
      using week_events_ordinal(1) [OF b] .
    ultimately have "ordinal a < ordinal b" using ij by linarith
    then show "dt_le a b" by (simp add: dt_le_def)
  qed
qed

lemma filter_cell_events:
  assumes "day < GITHUB_DAYS" and "day' < GITHUB_DAYS"
  shows "filter (\<lambda>c. ordinal c = ordinal start_date + 7 * int week + int day)
           (cell_events start_date m week' day') =
         (if day' = day \<and> week' = week then cell_events start_date m week day else [])"
proof -
  have "(7 * int week' + int day' = 7 * int week + int day) = (day' = day \<and> week' = week)"
    using assms unfolding GITHUB_DAYS_def by presburger
  then have "(ordinal start_date + 7 * int week' + int day' =
        ordinal start_date + 7 * int week + int day) = (day' = day \<and> week' = week)"
    by linarith
  then show ?thesis
    by (simp add: cell_events_def filter_map o_def)
qed

lemma filter_grid_events:
  assumes "day < GITHUB_DAYS" and "week < GITHUB_WEEKS"
  shows "filter (\<lambda>c. ordinal c = ordinal start_date + 7 * int week + int day)
           (grid_events start_date m) = cell_events start_date m week day"
proof -
  let ?P = "\<lambda>c. ordinal c = ordinal start_date + 7 * int week + int day"
  have inner: "concat (map (filter ?P \<circ> cell_events start_date m week') [0..<GITHUB_DAYS]) =
      (if week' = week then cell_events start_date m week day else [])" for week'
  proof -
    have "map (filter ?P \<circ> cell_events start_date m week') [0..<GITHUB_DAYS] =
        map (\<lambda>day'. if day' = day then (if week' = week then cell_events start_date m week day else []) else [])
          [0..<GITHUB_DAYS]"
      using assms(1) by (simp add: filter_cell_events)
    then show ?thesis
      using assms(1) by (simp only: concat_map_single) simp
  qed
  have "filter ?P (grid_events start_date m) =
      concat (map (\<lambda>week'. if week' = week then cell_events start_date m week day else [])
        [0..<GITHUB_WEEKS])"
    by (simp add: grid_events_def filter_concat o_def inner [unfolded o_def])
  then show ?thesis
    using assms(2) by (simp only: concat_map_single) simp
qed

lemma length_grid_events:
  assumes "intensity_grid m"
  shows "int (length (grid_events start_date m)) = sum_list (map sum_list m)"
proof -
  have len: "length m = GITHUB_DAYS" and row: "\<And>d. d < GITHUB_DAYS \<Longrightarrow> length (m ! d) = GITHUB_WEEKS"
    using assms by (simp_all add: intensity_grid_def has_shape_def list_all_length)
  have "int (length (grid_events start_date m)) =
      (\<Sum>w = 0..<GITHUB_WEEKS. \<Sum>d = 0..<GITHUB_DAYS. int (nat (m ! d ! w)))"
    by (simp add: grid_events_def length_concat o_def cell_events_def
        interv_sum_list_conv_sum_set_nat)
  also have "\<dots> = (\<Sum>w = 0..<GITHUB_WEEKS. \<Sum>d = 0..<GITHUB_DAYS. m ! d ! w)"
    using intensity_grid_nth(1) [OF assms] by simp
  also have "\<dots> = (\<Sum>d = 0..<GITHUB_DAYS. \<Sum>w = 0..<GITHUB_WEEKS. m ! d ! w)"
    by (rule sum.swap)
  also have "\<dots> = (\<Sum>d = 0..<GITHUB_DAYS. sum_list (m ! d))"
    by (simp add: sum_list_sum_nth row)
  also have "\<dots> = sum_list (map sum_list m)"
    by (simp add: sum_list_sum_nth len)
  finally show ?thesis .
qed

lemma schedule_in_range_anchor:
  "schedule_in_range today weeks_ago \<Longrightarrow> anchor_in_range today weeks_ago"
  by (simp add: schedule_in_range_def anchor_in_range_def)

lemma generate_commit_dates_in_range:
  assumes "has_shape m GITHUB_DAYS GITHUB_WEEKS" and "schedule_in_range today weeks_ago"
  shows "generate_commit_dates today m weeks_ago =
     Inr (grid_events (today\<lparr>ordinal := sunday_on_or_before (ordinal today - 7 * (52 + weeks_ago))\<rparr>) m)"
proof (rule generate_commit_dates_eq [OF assms(1) schedule_in_range_anchor [OF assms(2)]], intro allI impI)
  fix day week
  assume "day < GITHUB_DAYS" and "week < GITHUB_WEEKS"
  then have "7 * int week + int day \<le> 363"
    by (simp add: GITHUB_DAYS_def GITHUB_WEEKS_def)
  moreover have "0 \<le> (ordinal today - 7 * (52 + weeks_ago)) mod 7" by simp
  moreover have "ordinal today - 7 * (52 + weeks_ago) + 363 \<le> MAXORD"
    using assms(2) by (simp add: schedule_in_range_def)
  ultimately show "sunday_on_or_before (ordinal today - 7 * (52 + weeks_ago)) + 7 * int week + int day \<le> MAXORD"
    unfolding sunday_on_or_before_def by linarith
qed

lemma grid_events_cell:
  assumes "c \<in> set (grid_events start_date m)"
  shows "\<exists>day<GITHUB_DAYS. \<exists>week<GITHUB_WEEKS. 0 < m ! day ! week \<and>
           ordinal c = ordinal start_date + 7 * int week + int day"
proof -
  from assms obtain week day where wd: "week < GITHUB_WEEKS" "day < GITHUB_DAYS"
    and c: "c \<in> set (cell_events start_date m week day)"
    by (auto simp: grid_events_def)
  from c have "0 < m ! day ! week" by (auto simp: cell_events_def)
  with wd cell_events_ordinal [OF c] show ?thesis by blast
qed

section \<open>What \<open>load_template\<close> and the bucketing compute\<close>

lemma bind_res_Inr: "bind_res (Inr x) f = f x"
  by (simp add: bind_res_def)

lemma np_array_rect:
  assumes "rows \<noteq> []" and "list_all (\<lambda>r. length r = width) rows"
  shows "np_array rows = Inr (Array2 rows)"
    and "(case rows of [] \<Rightarrow> 0 | r # rs \<Rightarrow> length r) = width"
  using assms by (auto simp: np_array_def list_all_iff split: list.splits)

lemma load_template_eq:
  assumes found: "map_of templates template_name = Some rows"
    and ne: "rows \<noteq> []" and rect: "list_all (\<lambda>r. length r = width) rows"
  shows "load_template templates template_name = Inr (pad_truncate rows width)"
proof -
  define padded where "padded = rows @ replicate (GITHUB_DAYS - length rows) (replicate width 0)"
  have w: "(case rows of [] \<Rightarrow> 0 | r # rs \<Rightarrow> length r) = width"
    by (rule np_array_rect(2) [OF ne rect])
  have step1: "(if shape0 (Array2 rows) < GITHUB_DAYS
        then pad_rows (Array2 rows) (GITHUB_DAYS - shape0 (Array2 rows))
        else Inr (Array2 rows)) = Inr (Array2 padded)"
    by (simp add: padded_def w)
  have pne: "padded \<noteq> []" using ne by (simp add: padded_def)
  have "list_all (\<lambda>r. length r = width) padded"
    using rect by (auto simp: padded_def list_all_iff)
  then have step2: "shape1 (Array2 padded) = Inr width"
    using pne by (cases padded) simp_all
  have step3: "bind_res (if width < GITHUB_WEEKS then pad_cols (Array2 padded) (GITHUB_WEEKS - width)
        else if width > GITHUB_WEEKS then slice_cols (Array2 padded) GITHUB_WEEKS
        else Inr (Array2 padded)) (\<lambda>pattern. slice_rows_cols pattern GITHUB_DAYS GITHUB_WEEKS) =
      Inr (map (take GITHUB_WEEKS) (take GITHUB_DAYS
          (map (\<lambda>r. r @ replicate (GITHUB_WEEKS - width) 0) padded)))"
    by (simp add: bind_res_def take_map)
  have "load_template templates template_name =
      Inr (map (take GITHUB_WEEKS) (take GITHUB_DAYS
          (map (\<lambda>r. r @ replicate (GITHUB_WEEKS - width) 0) padded)))"
    unfolding load_template_def found option.case np_array_rect(1) [OF ne rect]
    by (simp only: bind_res_Inr step1 step2 step3)
  then show ?thesis
    by (simp only: pad_truncate_def padded_def)
qed

lemma pad_truncate_shape: 
  assumes "list_all (\<lambda>r. length r = width) rows"
  shows "has_shape (pad_truncate rows width) GITHUB_DAYS GITHUB_WEEKS"
  using assms
  by (auto simp: pad_truncate_def has_shape_def list_all_iff GITHUB_DAYS_def GITHUB_WEEKS_def
      dest!: in_set_takeD)

lemma pad_truncate_nth:
  assumes rect: "list_all (\<lambda>r. length r = width) rows"
    and d: "day < GITHUB_DAYS" and w: "week < GITHUB_WEEKS"
  shows "pad_truncate rows width ! day ! week =
     (if day < length rows \<and> week < width then rows ! day ! week else 0)"
proof -
  define padded where "padded = rows @ replicate (GITHUB_DAYS - length rows) (replicate width 0)"
  have len: "day < length padded" using d by (simp add: padded_def)
  have row: "padded ! day = (if day < length rows then rows ! day else replicate width 0)"
    using d by (simp add: padded_def nth_append)
  have lrow: "day < length rows \<Longrightarrow> length (rows ! day) = width"
    using rect by (simp add: list_all_length)
  have "pad_truncate rows width ! day =
      take GITHUB_WEEKS (padded ! day @ replicate (GITHUB_WEEKS - width) 0)"
    using len d by (simp add: pad_truncate_def padded_def [symmetric] del: take_append)
  then have "pad_truncate rows width ! day ! week =
      (padded ! day @ replicate (GITHUB_WEEKS - width) 0) ! week"
    using w by (simp only: nth_take)
  also have "\<dots> = (if day < length rows \<and> week < width then rows ! day ! week else 0)"
    using w lrow by (auto simp: row nth_append)
  finally show ?thesis .
qed

lemma unat_byte: "unat (v :: 8 word) \<le> 255"
  using unsigned_less [of v, where ?'a = nat] by simp

lemma unat_invert: "unat (255 - v :: 8 word) = 255 - unat v"
proof -
  have "v \<le> 255"
    using unat_byte [of v] by (simp add: word_le_nat_alt)
  then show ?thesis
    by (simp add: unat_sub)
qed

lemma quantize_pixel_div: "quantize_pixel v = (4 * (255 - int (unat v))) div 255"
proof -
  have "real (255 - unat v) / 255 * 4 = real (4 * (255 - unat v)) / real 255"
    by simp
  then have "quantize_pixel v = int ((4 * (255 - unat v)) div 255)"
    unfolding quantize_pixel_def unat_invert MAX_INTENSITY_def
    by (simp only: floor_divide_of_nat_eq of_int_numeral)
  also have "\<dots> = (4 * (255 - int (unat v))) div 255"
    using unat_byte [of v] by (simp add: zdiv_int of_nat_diff)
  finally show ?thesis .
qed

lemma div_255_eq: "((a :: int) div 255 = q) = (255 * q \<le> a \<and> a < 255 * q + 255)"
  by linarith

lemma bucket_arith:
  fixes n :: nat
  assumes "n \<le> 255"
  shows "((4 * (255 - int n)) div 255 = 4) = (n = 0)"
    and "((4 * (255 - int n)) div 255 = 3) = (1 \<le> n \<and> n \<le> 63)"
    and "((4 * (255 - int n)) div 255 = 2) = (64 \<le> n \<and> n \<le> 127)"
    and "((4 * (255 - int n)) div 255 = 1) = (128 \<le> n \<and> n \<le> 191)"
    and "((4 * (255 - int n)) div 255 = 0) = (192 \<le> n)"
    and "0 \<le> (4 * (255 - int n)) div 255"
    and "(4 * (255 - int n)) div 255 \<le> 4"
  using assms unfolding div_255_eq by auto

lemma quantize_pixel_buckets:
  "(quantize_pixel v = 4) = (unat v = 0)"
  "(quantize_pixel v = 3) = (1 \<le> unat v \<and> unat v \<le> 63)"
  "(quantize_pixel v = 2) = (64 \<le> unat v \<and> unat v \<le> 127)"
  "(quantize_pixel v = 1) = (128 \<le> unat v \<and> unat v \<le> 191)"
  "(quantize_pixel v = 0) = (192 \<le> unat v)"
  unfolding quantize_pixel_div by (rule bucket_arith [OF unat_byte])+

lemma quantize_pixel_range: "0 \<le> quantize_pixel v" "quantize_pixel v \<le> 4"
  unfolding quantize_pixel_div by (rule bucket_arith [OF unat_byte])+

lemma load_and_process_template:
  assumes "template_name \<noteq> []"
    and "map_of templates template_name = Some rows"
    and "rows \<noteq> []" and "list_all (\<lambda>r. length r = width) rows"
  shows "load_and_process_image resize templates img (Some template_name) =
     Inr (pad_truncate rows width)"
proof -
  obtain c cs where n: "template_name = c # cs"
    using assms(1) by (cases template_name) simp_all
  show ?thesis
    using load_template_eq [OF assms(2-4)] by (simp add: load_and_process_image_def n)
qed

lemma load_and_process_resized:
  "load_and_process_image resize templates img None =
     Inr (map (map quantize_pixel) (resize img (GITHUB_WEEKS, GITHUB_DAYS)))"
  by (simp add: load_and_process_image_def)

lemma pad_truncate_values:
  assumes "list_all (list_all (\<lambda>v. 0 \<le> v \<and> v \<le> MAX_INTENSITY)) rows"
  shows "list_all (list_all (\<lambda>v. 0 \<le> v \<and> v \<le> MAX_INTENSITY)) (pad_truncate rows width)"
proof -
  let ?padded = "rows @ replicate (GITHUB_DAYS - length rows) (replicate width 0)"
  let ?f = "\<lambda>r. r @ replicate (GITHUB_WEEKS - width) (0::int)"
  have "0 \<le> v \<and> v \<le> MAX_INTENSITY"
    if "r \<in> set (pad_truncate rows width)" "v \<in> set r" for r v
  proof -
    from that(1) have "r \<in> take GITHUB_WEEKS ` set (take GITHUB_DAYS (map ?f ?padded))"
      unfolding pad_truncate_def set_map .
    then obtain r2 where r: "r = take GITHUB_WEEKS r2"
      and r2_in: "r2 \<in> set (take GITHUB_DAYS (map ?f ?padded))"
      by (rule imageE)
    from r2_in have "r2 \<in> set (map ?f ?padded)"
      by (rule in_set_takeD)
    then obtain r' where r2: "r2 = ?f r'" and "r' \<in> set ?padded"
      unfolding set_map by (rule imageE)
    then have r': "r' \<in> set rows \<or> r' = replicate width 0"
      by auto
    from that(2) have "v \<in> set r2"
      unfolding r by (rule in_set_takeD)
    then have "v \<in> set r' \<or> v = 0"
      by (auto simp: r2)
    with r' show ?thesis
      using assms by (auto simp: list_all_iff MAX_INTENSITY_def)
  qed
  then show ?thesis by (simp add: list_all_iff)
qed

lemma grid_events_all_zero:
  assumes "has_shape m GITHUB_DAYS GITHUB_WEEKS" and "list_all (list_all (\<lambda>v. v = 0)) m"
  shows "grid_events start_date m = []"
proof -
  have "m ! day ! week = 0" if "day < GITHUB_DAYS" "week < GITHUB_WEEKS" for day week
    using assms that by (simp add: has_shape_def list_all_length)
  then show ?thesis
    by (simp add: grid_events_def cell_events_def)
qed

section \<open>Updating a registry\<close>

lemma map_upd_add_swap:
  assumes "k \<notin> dom n"
  shows "m(k \<mapsto> v) ++ n = m ++ n(k \<mapsto> v)"
  using assms by (auto simp: map_add_def fun_eq_iff split: option.splits)

lemma map_of_dict_update:
  assumes "distinct (map fst data)"
  shows "map_of (dict_update d data) = map_of d ++ map_of data"
  using assms
proof (induction data arbitrary: d)
  case Nil
  show ?case by (simp add: dict_update_def)
next
  case (Cons kv data)
  obtain k v where kv: "kv = (k, v)" by (cases kv)
  from Cons.prems have k: "k \<notin> dom (map_of data)" and dist: "distinct (map fst data)"
    by (simp_all add: kv dom_map_of_conv_image_fst)
  have "map_of (dict_update d (kv # data)) = map_of (dict_update (AList.update k v d) data)"
    by (simp add: dict_update_def kv)
  also have "\<dots> = (map_of d)(k \<mapsto> v) ++ map_of data"
    by (simp only: Cons.IH [OF dist] update_conv')
  also have "\<dots> = map_of d ++ map_of (kv # data)"
    by (simp add: map_upd_add_swap [OF k] kv)
  finally show ?case .
qed

lemma update_new_key:
  assumes "k \<notin> fst ` set d"
  shows "AList.update k v d = d @ [(k, v)]"
  using assms by (induction d) auto

lemma dict_update_append:
  assumes "distinct (map fst (d @ data))"
  shows "dict_update d data = d @ data"
  using assms
proof (induction data arbitrary: d)
  case Nil
  show ?case by (simp add: dict_update_def)
next
  case (Cons kv data)
  obtain k v where kv: "kv = (k, v)" by (cases kv)
  from Cons.prems have new: "k \<notin> fst ` set d" by (auto simp: kv)
  from Cons.prems have "distinct (map fst ((d @ [(k, v)]) @ data))" by (simp add: kv)
  from Cons.IH [OF this] show ?case
    by (simp add: dict_update_def kv update_new_key [OF new])
qed

lemma dict_update_Cons:
  "dict_update d ((k, v) # data) = dict_update (AList.update k v d) data"
  by (simp add: dict_update_def)

lemma dict_update_keys:
  "fst ` set (dict_update d data) = fst ` set d \<union> fst ` set data"
proof (induction data arbitrary: d)
  case Nil
  show ?case by (simp add: dict_update_def)
next
  case (Cons kv data)
  obtain k v where kv: "kv = (k, v)" by (cases kv)
  have "fst ` set (dict_update d (kv # data)) = ({k} \<union> fst ` set d) \<union> fst ` set data"
    unfolding kv dict_update_Cons Cons.IH dom_update ..
  also have "\<dots> = fst ` set d \<union> fst ` set (kv # data)"
    by (auto simp: kv)
  finally show ?case .
qed

lemma dict_update_distinct:
  "distinct (map fst d) \<Longrightarrow> distinct (map fst (dict_update d data))"
  by (induction data arbitrary: d) (auto simp: dict_update_def distinct_update)

lemma builtin_distinct: "distinct (map fst builtin_templates)"
  by (simp add: builtin_templates_def)

lemma registry_state_inv:
  assumes "registry_state r"
  shows "distinct (map fst r)" and "fst ` set builtin_templates \<subseteq> fst ` set r"
  using assms
  by (induction rule: registry_state.induct)
    (auto simp: builtin_distinct dict_update_distinct dict_update_keys)

section \<open>The epoch anchor\<close>

text \<open>
  Claim C3. Whenever the offset date \<open>today - (52 + weeks_ago) weeks\<close> exists in the
  calendar, on or after its first Sunday, the start date that \<open>generate_commit_dates\<close>
  computes is that offset date walked back to the most recent Sunday: it falls on a Sunday
  (weekday 6 of the library, day index 0 of the grid), at most 6 days before the offset
  date, it is the offset date itself when that is a Sunday, and it keeps the time of day
  of the current moment.
\<close>

theorem start_date_is_most_recent_sunday:
  assumes "anchor_in_range today weeks_ago"
  shows "\<exists>offset_date anchor.
      dt_sub today (7 * (52 + weeks_ago)) = Inr offset_date \<and>
      ordinal offset_date = ordinal today - 7 * (52 + weeks_ago) \<and>
      start_date_of today weeks_ago = Inr anchor \<and>
      weekday anchor = 6 \<and>
      ordinal anchor \<le> ordinal offset_date \<and>
      ordinal offset_date - ordinal anchor \<le> 6 \<and>
      (weekday offset_date = 6 \<longrightarrow> anchor = offset_date) \<and>
      anchor = today\<lparr>ordinal := ordinal anchor\<rparr>"
proof -
  define s where "s = ordinal today - 7 * (52 + weeks_ago)"
  have r: "1 \<le> ordinal today" "ordinal today \<le> MAXORD" "7 \<le> s" "s \<le> MAXORD"
    using assms by (simp_all add: anchor_in_range_def valid_datetime_def s_def)
  have off: "dt_sub today (7 * (52 + weeks_ago)) = Inr (today\<lparr>ordinal := s\<rparr>)"
    unfolding dt_sub_def dt_add_def Let_def using r by (simp add: s_def)
  have st: "start_date_of today weeks_ago = Inr (today\<lparr>ordinal := s - s mod 7\<rparr>)"
    using start_date_of_eq [OF assms] by (simp add: sunday_on_or_before_def s_def)
  have sunday: "(s - s mod 7 + 6) mod 7 = 6" by presburger
  have m7: "0 \<le> s mod 7" "s mod 7 < 7" by simp_all
  have same: "(s + 6) mod 7 = 6 \<Longrightarrow> s mod 7 = 0" by presburger
  show ?thesis
    apply (rule exI [of _ "today\<lparr>ordinal := s\<rparr>"])
    apply (rule exI [of _ "today\<lparr>ordinal := s - s mod 7\<rparr>"])
    using off st sunday m7 same by (simp add: weekday_def s_def)
qed

theorem start_date_is_most_recent_sunday_witness:
  "anchor_in_range \<lparr>ordinal = 739923, hour = 14, minute = 30, second = 5, microsecond = 0\<rparr> 0 \<and>
   start_date_of \<lparr>ordinal = 739923, hour = 14, minute = 30, second = 5, microsecond = 0\<rparr> 0 =
     Inr \<lparr>ordinal = 739557, hour = 14, minute = 30, second = 5, microsecond = 0\<rparr> \<and>
   weekday \<lparr>ordinal = 739557, hour = 14, minute = 30, second = 5, microsecond = 0\<rparr> = 6"
proof -
  let ?t = "\<lparr>ordinal = 739923, hour = 14, minute = 30, second = 5, microsecond = 0\<rparr>"
  have h: "anchor_in_range ?t 0"
    by (simp add: anchor_in_range_def valid_datetime_def MAXORD_def)
  obtain offset_date :: datetime and anchor :: datetime where
    a: "start_date_of ?t 0 = Inr anchor" "weekday anchor = 6"
       "ordinal anchor \<le> ordinal offset_date" "ordinal offset_date - ordinal anchor \<le> 6"
       "ordinal offset_date = ordinal ?t - 7 * (52 + 0)"
       "anchor = ?t\<lparr>ordinal := ordinal anchor\<rparr>"
    using start_date_is_most_recent_sunday [OF h] by blast
  have "(ordinal anchor + 6) mod 7 = 6" using a(2) by (simp add: weekday_def)
  moreover have "739553 \<le> ordinal anchor" "ordinal anchor \<le> 739559" using a(3,4,5) by simp_all
  ultimately have "ordinal anchor = 739557" by presburger
  with a(6) have "anchor = \<lparr>ordinal = 739557, hour = 14, minute = 30, second = 5, microsecond = 0\<rparr>"
    by simp
  with a(1,2) h show ?thesis by simp
qed

section \<open>The events of the schedule\<close>

text \<open>
  Claim C1. For every IntensityGrid (7 by 52, cells from 0 to 4) and every week offset whose
  dates exist in the calendar, \<open>generate_commit_dates\<close> returns a list of events in which
  the events bearing the date of cell \<open>(day, week)\<close>, which is the anchor plus \<open>week\<close>
  weeks and \<open>day\<close> days, are exactly as many as the cell's intensity (none for a cell of
  intensity 0); every event bears the date of a cell of positive intensity; and the number
  of events is the sum of all cells.
\<close>

theorem schedule_emits_intensity_many_events:
  assumes "intensity_grid m" and "schedule_in_range today weeks_ago"
  shows "\<exists>anchor commits.
      start_date_of today weeks_ago = Inr anchor \<and>
      generate_commit_dates today m weeks_ago = Inr commits \<and>
      (\<forall>day<GITHUB_DAYS. \<forall>week<GITHUB_WEEKS.
         int (length (filter (\<lambda>c. ordinal c = ordinal anchor + 7 * int week + int day) commits)) =
           m ! day ! week) \<and>
      (\<forall>c\<in>set commits. \<exists>day<GITHUB_DAYS. \<exists>week<GITHUB_WEEKS.
         0 < m ! day ! week \<and> ordinal c = ordinal anchor + 7 * int week + int day) \<and>
      int (length commits) = sum_list (map sum_list m)"
proof -
  define anchor where
    "anchor = today\<lparr>ordinal := sunday_on_or_before (ordinal today - 7 * (52 + weeks_ago))\<rparr>"
  have shape: "has_shape m GITHUB_DAYS GITHUB_WEEKS"
    using assms(1) by (simp add: intensity_grid_def)
  have 1: "start_date_of today weeks_ago = Inr anchor"
    unfolding anchor_def by (rule start_date_of_eq [OF schedule_in_range_anchor [OF assms(2)]])
  have 2: "generate_commit_dates today m weeks_ago = Inr (grid_events anchor m)"
    unfolding anchor_def by (rule generate_commit_dates_in_range [OF shape assms(2)])
  have 3: "int (length (filter (\<lambda>c. ordinal c = ordinal anchor + 7 * int week + int day)
        (grid_events anchor m))) = m ! day ! week"
    if "day < GITHUB_DAYS" "week < GITHUB_WEEKS" for day week
    using intensity_grid_nth(1) [OF assms(1) that]
    by (simp add: filter_grid_events [OF that] cell_events_def)
  have 4: "\<forall>c\<in>set (grid_events anchor m). \<exists>day<GITHUB_DAYS. \<exists>week<GITHUB_WEEKS.
         0 < m ! day ! week \<and> ordinal c = ordinal anchor + 7 * int week + int day"
    using grid_events_cell by blast
  show ?thesis
    using 1 2 3 4 length_grid_events [OF assms(1)] by blast
qed

theorem schedule_emits_intensity_many_events_witness:
  "intensity_grid ((2 # replicate 51 0) # replicate 5 (replicate 52 0) @ [replicate 51 0 @ [3]]) \<and>
   schedule_in_range \<lparr>ordinal = 739923, hour = 14, minute = 30, second = 5, microsecond = 0\<rparr> 0 \<and>
   (\<exists>commits. generate_commit_dates
        \<lparr>ordinal = 739923, hour = 14, minute = 30, second = 5, microsecond = 0\<rparr>
        ((2 # replicate 51 0) # replicate 5 (replicate 52 0) @ [replicate 51 0 @ [3]]) 0 = Inr commits \<and>
      length commits = 5 \<and>
      length (filter (\<lambda>c. ordinal c = 739557 + 7 * 51 + 6) commits) = 3)"
proof -
  let ?t = "\<lparr>ordinal = 739923, hour = 14, minute = 30, second = 5, microsecond = 0\<rparr>"
  let ?g = "(2 # replicate 51 0) # replicate 5 (replicate 52 0) @ [replicate 51 0 @ [3::int]]"
  have g: "intensity_grid ?g"
    by (simp add: intensity_grid_def has_shape_def list_all_iff GITHUB_DAYS_def GITHUB_WEEKS_def
        MAX_INTENSITY_def)
  have r: "schedule_in_range ?t 0"
    by (simp add: schedule_in_range_def valid_datetime_def MAXORD_def)
  have a: "start_date_of ?t 0 = Inr (?t\<lparr>ordinal := 739557\<rparr>)"
    using start_date_of_eq [OF schedule_in_range_anchor [OF r]] by (simp add: sunday_on_or_before_def)
  obtain anchor :: datetime and commits where
    c: "start_date_of ?t 0 = Inr anchor" "generate_commit_dates ?t ?g 0 = Inr commits"
      "\<forall>day<GITHUB_DAYS. \<forall>week<GITHUB_WEEKS.
         int (length (filter (\<lambda>c. ordinal c = ordinal anchor + 7 * int week + int day) commits)) =
           ?g ! day ! week"
      "int (length commits) = sum_list (map sum_list ?g)"
    using schedule_emits_intensity_many_events [OF g r] by blast
  from c(1) a have "anchor = ?t\<lparr>ordinal := 739557\<rparr>" by simp
  then have an: "ordinal anchor = 739557" by simp
  have "int (length (filter (\<lambda>c. ordinal c = ordinal anchor + 7 * int 51 + int 6) commits)) = ?g ! 6 ! 51"
    by (rule c(3) [rule_format]) (simp_all add: GITHUB_DAYS_def GITHUB_WEEKS_def)
  moreover have "?g ! 6 ! 51 = 3" by (simp add: nth_append nth_Cons')
  ultimately have "length (filter (\<lambda>c. ordinal c = 739557 + 7 * 51 + 6) commits) = 3"
    using an by simp
  moreover have "length commits = 5" using c(4) by (simp add: sum_list_replicate)
  ultimately show ?thesis using g r c(2) by simp
qed

text \<open>
  Claim C2. Under the same conditions, the events of cell \<open>(day, week)\<close>, in the order
  emitted, are the anchor moved to the cell's date with hour \<open>9 + (3 * k) mod 14\<close> and
  minute \<open>(17 * k) mod 60\<close> for \<open>k = 0, 1, ...\<close> below the cell's intensity. For the grid
  whose only non-zero cell is row 0, column 0 with value 2, the result is exactly two
  events on the anchor's date, at 9:00 and at 12:17.
\<close>

theorem schedule_time_of_day:
  assumes "intensity_grid m" and "schedule_in_range today weeks_ago"
  shows "\<exists>anchor commits.
      start_date_of today weeks_ago = Inr anchor \<and>
      generate_commit_dates today m weeks_ago = Inr commits \<and>
      (\<forall>day<GITHUB_DAYS. \<forall>week<GITHUB_WEEKS.
         filter (\<lambda>c. ordinal c = ordinal anchor + 7 * int week + int day) commits =
           map (\<lambda>k. anchor\<lparr>ordinal := ordinal anchor + 7 * int week + int day,
                            hour := 9 + (3 * k) mod 14, minute := (17 * k) mod 60\<rparr>)
             [0..<nat (m ! day ! week)]) \<and>
      ((\<forall>day<GITHUB_DAYS. \<forall>week<GITHUB_WEEKS.
          m ! day ! week = (if day = 0 \<and> week = 0 then 2 else 0)) \<longrightarrow>
        commits = [anchor\<lparr>hour := 9, minute := 0\<rparr>, anchor\<lparr>hour := 12, minute := 17\<rparr>])"
proof -
  define anchor where
    "anchor = today\<lparr>ordinal := sunday_on_or_before (ordinal today - 7 * (52 + weeks_ago))\<rparr>"
  have shape: "has_shape m GITHUB_DAYS GITHUB_WEEKS"
    using assms(1) by (simp add: intensity_grid_def)
  have 1: "start_date_of today weeks_ago = Inr anchor"
    unfolding anchor_def by (rule start_date_of_eq [OF schedule_in_range_anchor [OF assms(2)]])
  have 2: "generate_commit_dates today m weeks_ago = Inr (grid_events anchor m)"
    unfolding anchor_def by (rule generate_commit_dates_in_range [OF shape assms(2)])
  have 3: "filter (\<lambda>c. ordinal c = ordinal anchor + 7 * int week + int day) (grid_events anchor m) =
           map (\<lambda>k. anchor\<lparr>ordinal := ordinal anchor + 7 * int week + int day,
                            hour := 9 + (3 * k) mod 14, minute := (17 * k) mod 60\<rparr>)
             [0..<nat (m ! day ! week)]"
    if "day < GITHUB_DAYS" "week < GITHUB_WEEKS" for day week
    by (simp add: filter_grid_events [OF that] cell_events_def
        mult.commute [of "3::nat"] mult.commute [of "17::nat"])
  have 4: "grid_events anchor m = [anchor\<lparr>hour := 9, minute := 0\<rparr>, anchor\<lparr>hour := 12, minute := 17\<rparr>]"
    if single: "\<forall>day<GITHUB_DAYS. \<forall>week<GITHUB_WEEKS.
          m ! day ! week = (if day = 0 \<and> week = 0 then 2 else 0)"
  proof -
    have "ordinal c = ordinal anchor + 7 * int 0 + int 0" if "c \<in> set (grid_events anchor m)" for c
    proof -
      from grid_events_cell [OF that] obtain day week where
        "day < GITHUB_DAYS" "week < GITHUB_WEEKS" "0 < m ! day ! week"
        "ordinal c = ordinal anchor + 7 * int week + int day" by blast
      with single show ?thesis by (auto split: if_splits)
    qed
    then have "grid_events anchor m =
        filter (\<lambda>c. ordinal c = ordinal anchor + 7 * int 0 + int 0) (grid_events anchor m)"
      by (simp add: filter_id_conv)
    also have "\<dots> = cell_events anchor m 0 0"
      by (rule filter_grid_events) (simp_all add: GITHUB_DAYS_def GITHUB_WEEKS_def)
    also have "m ! 0 ! 0 = 2"
      using single by (simp add: GITHUB_DAYS_def GITHUB_WEEKS_def)
    then have "cell_events anchor m 0 0 =
        [anchor\<lparr>hour := 9, minute := 0\<rparr>, anchor\<lparr>hour := 12, minute := 17\<rparr>]"
      by (simp add: cell_events_def upt_rec)
    finally show ?thesis .
  qed
  show ?thesis
    using 1 2 3 4 by blast
qed

theorem schedule_time_of_day_witness:
  "intensity_grid ((2 # replicate 51 0) # replicate 6 (replicate 52 0)) \<and>
   schedule_in_range \<lparr>ordinal = 739923, hour = 14, minute = 30, second = 5, microsecond = 0\<rparr> 0 \<and>
   generate_commit_dates
        \<lparr>ordinal = 739923, hour = 14, minute = 30, second = 5, microsecond = 0\<rparr>
        ((2 # replicate 51 0) # replicate 6 (replicate 52 0)) 0 =
     Inr [\<lparr>ordinal = 739557, hour = 9, minute = 0, second = 5, microsecond = 0\<rparr>,
          \<lparr>ordinal = 739557, hour = 12, minute = 17, second = 5, microsecond = 0\<rparr>]"
proof -
  let ?t = "\<lparr>ordinal = 739923, hour = 14, minute = 30, second = 5, microsecond = 0\<rparr>"
  let ?g = "(2 # replicate 51 0) # replicate 6 (replicate 52 (0::int))"
  have g: "intensity_grid ?g"
    by (simp add: intensity_grid_def has_shape_def list_all_iff GITHUB_DAYS_def GITHUB_WEEKS_def
        MAX_INTENSITY_def)
  have r: "schedule_in_range ?t 0"
    by (simp add: schedule_in_range_def valid_datetime_def MAXORD_def)
  have a: "start_date_of ?t 0 = Inr (?t\<lparr>ordinal := 739557\<rparr>)"
    using start_date_of_eq [OF schedule_in_range_anchor [OF r]] by (simp add: sunday_on_or_before_def)
  have single: "\<forall>day<GITHUB_DAYS. \<forall>week<GITHUB_WEEKS.
      ?g ! day ! week = (if day = 0 \<and> week = 0 then 2 else 0)"
    by (simp add: nth_Cons' GITHUB_DAYS_def GITHUB_WEEKS_def)
  obtain anchor :: datetime and commits where
    c: "start_date_of ?t 0 = Inr anchor" "generate_commit_dates ?t ?g 0 = Inr commits"
      "commits = [anchor\<lparr>hour := 9, minute := 0\<rparr>, anchor\<lparr>hour := 12, minute := 17\<rparr>]"
    using schedule_time_of_day [OF g r] single by blast
  from c(1) a have "anchor = ?t\<lparr>ordinal := 739557\<rparr>" by simp
  with c(2,3) g r show ?thesis by simp
qed

text \<open>
  Claim C4. Under the same conditions, the list \<open>generate_commit_dates\<close> returns is in
  chronological order (each event is at or before every later one), as built by the
  traversal, with no sorting step.
\<close>

theorem schedule_is_chronological:
  assumes "intensity_grid m" and "schedule_in_range today weeks_ago"
  shows "\<exists>commits. generate_commit_dates today m weeks_ago = Inr commits \<and>
           sorted_wrt dt_le commits"
proof -
  have shape: "has_shape m GITHUB_DAYS GITHUB_WEEKS"
    using assms(1) by (simp add: intensity_grid_def)
  show ?thesis
    using generate_commit_dates_in_range [OF shape assms(2)] grid_events_sorted [OF assms(1)]
    by simp
qed

theorem schedule_is_chronological_witness:
  "intensity_grid (replicate 3 (replicate 52 4) @ replicate 4 (1 # replicate 51 0)) \<and>
   schedule_in_range \<lparr>ordinal = 739923, hour = 23, minute = 59, second = 59, microsecond = 999999\<rparr> (- 3) \<and>
   (\<exists>commits. generate_commit_dates
        \<lparr>ordinal = 739923, hour = 23, minute = 59, second = 59, microsecond = 999999\<rparr>
        (replicate 3 (replicate 52 4) @ replicate 4 (1 # replicate 51 0)) (- 3) = Inr commits \<and>
      sorted_wrt dt_le commits)"
proof -
  let ?t = "\<lparr>ordinal = 739923, hour = 23, minute = 59, second = 59, microsecond = 999999\<rparr>"
  let ?g = "replicate 3 (replicate 52 4) @ replicate 4 (1 # replicate 51 (0::int))"
  have g: "intensity_grid ?g"
    by (simp add: intensity_grid_def has_shape_def list_all_iff GITHUB_DAYS_def GITHUB_WEEKS_def
        MAX_INTENSITY_def)
  have r: "schedule_in_range ?t (- 3)"
    by (simp add: schedule_in_range_def valid_datetime_def MAXORD_def)
  show ?thesis
    using g r schedule_is_chronological [OF g r] by simp
qed

section \<open>The quantizer\<close>

text \<open>
  Claim C5. \<open>load_and_process_image\<close> returns a grid of exactly 7 rows and 52 columns
  on both paths. On the template path this holds for every two-dimensional pattern (at
  least one row, all rows of one width), whatever its height and width: short patterns
  are padded with zeros below and on the right, long ones are cut; with cells from 0 to 4
  the result is an IntensityGrid. On the other path the image is resampled by the imaging
  library to the requested 52 by 7, whatever its size, and each pixel is mapped to a
  level from 0 to 4.
\<close>

theorem quantize_shape:
  "(template_name \<noteq> [] \<and> map_of templates template_name = Some rows \<and>
      rows \<noteq> [] \<and> list_all (\<lambda>r. length r = width) rows \<longrightarrow>
      (\<exists>g. load_and_process_image resize templates img (Some template_name) = Inr g \<and>
           has_shape g GITHUB_DAYS GITHUB_WEEKS \<and>
           (list_all (list_all (\<lambda>v. 0 \<le> v \<and> v \<le> MAX_INTENSITY)) rows \<longrightarrow> intensity_grid g))) \<and>
   (has_shape (resize img (GITHUB_WEEKS, GITHUB_DAYS)) GITHUB_DAYS GITHUB_WEEKS \<longrightarrow>
      (\<exists>g. load_and_process_image resize templates img None = Inr g \<and> intensity_grid g))"
proof (intro conjI impI)
  assume a: "template_name \<noteq> [] \<and> map_of templates template_name = Some rows \<and>
      rows \<noteq> [] \<and> list_all (\<lambda>r. length r = width) rows"
  then have "load_and_process_image resize templates img (Some template_name) =
      Inr (pad_truncate rows width)"
    by (intro load_and_process_template) simp_all
  moreover have "has_shape (pad_truncate rows width) GITHUB_DAYS GITHUB_WEEKS"
    using a by (simp add: pad_truncate_shape)
  ultimately show "\<exists>g. load_and_process_image resize templates img (Some template_name) = Inr g \<and>
           has_shape g GITHUB_DAYS GITHUB_WEEKS \<and>
           (list_all (list_all (\<lambda>v. 0 \<le> v \<and> v \<le> MAX_INTENSITY)) rows \<longrightarrow> intensity_grid g)"
    by (simp add: intensity_grid_def pad_truncate_values)
next
  assume "has_shape (resize img (GITHUB_WEEKS, GITHUB_DAYS)) GITHUB_DAYS GITHUB_WEEKS"
  then have "intensity_grid (map (map quantize_pixel) (resize img (GITHUB_WEEKS, GITHUB_DAYS)))"
    by (simp add: intensity_grid_def has_shape_def list_all_iff MAX_INTENSITY_def
        quantize_pixel_range)
  then show "\<exists>g. load_and_process_image resize templates img None = Inr g \<and> intensity_grid g"
    by (simp add: load_and_process_resized)
qed

theorem quantize_shape_witness:
  "(\<exists>g. load_and_process_image (\<lambda>img size. replicate 7 (replicate 52 128))
          [(''dot'', [[3, 1], [0, 2]])] [[0, 255, 7]] (Some ''dot'') = Inr g \<and>
        intensity_grid g) \<and>
   (\<exists>g. load_and_process_image (\<lambda>img size. replicate 7 (replicate 52 128))
          [(''dot'', [[3, 1], [0, 2]])] [[0, 255, 7]] None = Inr g \<and>
        intensity_grid g)"
proof -
  let ?resize = "\<lambda>(img :: 8 word list list) (size :: nat \<times> nat). replicate 7 (replicate 52 (128 :: 8 word))"
  let ?templates = "[(''dot'', [[3, 1], [0, 2 :: int]])]"
  have t: "''dot'' \<noteq> [] \<and> map_of ?templates ''dot'' = Some [[3, 1], [0, 2]] \<and>
      [[3, 1], [0, 2 :: int]] \<noteq> [] \<and> list_all (\<lambda>r. length r = 2) [[3, 1], [0, 2 :: int]]"
    by simp
  have v: "list_all (list_all (\<lambda>v. 0 \<le> v \<and> v \<le> MAX_INTENSITY)) [[3, 1], [0, 2]]"
    by (simp add: MAX_INTENSITY_def)
  have r: "has_shape (?resize [[0, 255, 7]] (GITHUB_WEEKS, GITHUB_DAYS)) GITHUB_DAYS GITHUB_WEEKS"
    by (simp add: has_shape_def list_all_iff GITHUB_DAYS_def GITHUB_WEEKS_def)
  show ?thesis
    using quantize_shape [of "''dot''" ?templates "[[3, 1], [0, 2]]" 2 ?resize "[[0, 255, 7]]"] t v r
    by blast
qed

text \<open>
  Claim C6. Without a template, every cell of the result is the resampled byte \<open>v\<close>
  inverted and bucketed, \<open>floor ((255 - v) / 255 * 4)\<close>, and lies in \<open>{0, 1, 2, 3, 4}\<close>;
  where the resampled image is all white (255) the grid is all 0, and where it is all
  black (0) the grid is all 4. (The resampling filter of the imaging library maps an
  image of one colour to that colour.)
\<close>

theorem quantize_levels:
  "\<exists>g. load_and_process_image resize templates img None = Inr g \<and>
      g = map (map (\<lambda>v. \<lfloor>real (255 - unat v) / 255 * 4\<rfloor>)) (resize img (GITHUB_WEEKS, GITHUB_DAYS)) \<and>
      list_all (list_all (\<lambda>c. c \<in> {0, 1, 2, 3, 4})) g \<and>
      (list_all (list_all (\<lambda>v. v = 255)) (resize img (GITHUB_WEEKS, GITHUB_DAYS)) \<longrightarrow>
         list_all (list_all (\<lambda>c. c = 0)) g) \<and>
      (list_all (list_all (\<lambda>v. v = 0)) (resize img (GITHUB_WEEKS, GITHUB_DAYS)) \<longrightarrow>
         list_all (list_all (\<lambda>c. c = 4)) g)"
proof -
  have f: "quantize_pixel = (\<lambda>v. \<lfloor>real (255 - unat v) / 255 * 4\<rfloor>)"
    by (rule ext) (simp add: quantize_pixel_def unat_invert MAX_INTENSITY_def)
  have r: "quantize_pixel v \<in> {0, 1, 2, 3, 4}" for v
    using quantize_pixel_range [of v] by auto
  have w: "quantize_pixel 255 = 0" and b: "quantize_pixel 0 = 4"
    by (simp_all add: quantize_pixel_buckets)
  show ?thesis
    unfolding load_and_process_resized f [symmetric]
    using r w b by (auto simp: list_all_iff)
qed

theorem quantize_levels_witness:
  "load_and_process_image (\<lambda>img size. replicate 7 (replicate 52 255)) [] [[255, 255], [255, 255]] None =
     Inr (replicate 7 (replicate 52 0)) \<and>
   load_and_process_image (\<lambda>img size. replicate 7 (replicate 52 0)) [] [[0]] None =
     Inr (replicate 7 (replicate 52 4))"
proof -
  let ?white = "\<lambda>(img :: 8 word list list) (size :: nat \<times> nat). replicate 7 (replicate 52 (255 :: 8 word))"
  let ?black = "\<lambda>(img :: 8 word list list) (size :: nat \<times> nat). replicate 7 (replicate 52 (0 :: 8 word))"
  obtain g where g: "load_and_process_image ?white [] [[255, 255], [255, 255]] None = Inr g"
    and gm: "g = map (map (\<lambda>v. \<lfloor>real (255 - unat v) / 255 * 4\<rfloor>))
        (?white [[255, 255], [255, 255]] (GITHUB_WEEKS, GITHUB_DAYS))"
    using quantize_levels [of ?white "[]" "[[255, 255], [255, 255]]"] by blast
  obtain h where h: "load_and_process_image ?black [] [[0]] None = Inr h"
    and hm: "h = map (map (\<lambda>v. \<lfloor>real (255 - unat v) / 255 * 4\<rfloor>))
        (?black [[0]] (GITHUB_WEEKS, GITHUB_DAYS))"
    using quantize_levels [of ?black "[]" "[[0]]"] by blast
  from gm have "g = replicate 7 (replicate 52 0)" by simp
  moreover from hm have "h = replicate 7 (replicate 52 4)" by simp
  ultimately show ?thesis using g h by simp
qed

text \<open>
  Claim C7. With a template, the values are kept as they are: cell \<open>(day, week)\<close> of the
  result is the template's cell where the template has one, and 0 where the result was
  padded. A template of 9 rows and 60 columns gives 7 rows of 52 columns: its rows 0 to
  6, each cut to its first 52 cells.
\<close>

theorem template_values_preserved:
  assumes "template_name \<noteq> []" and "map_of templates template_name = Some rows"
    and "rows \<noteq> []" and "list_all (\<lambda>r. length r = width) rows"
  shows "\<exists>g. load_and_process_image resize templates img (Some template_name) = Inr g \<and>
      load_template templates template_name = Inr g \<and>
      (\<forall>day<GITHUB_DAYS. \<forall>week<GITHUB_WEEKS.
         g ! day ! week = (if day < length rows \<and> week < width then rows ! day ! week else 0)) \<and>
      (length rows = 9 \<and> width = 60 \<longrightarrow>
         has_shape g 7 52 \<and> g = map (take 52) (take 7 rows))"
proof -
  have 1: "load_and_process_image resize templates img (Some template_name) =
      Inr (pad_truncate rows width)"
    by (rule load_and_process_template [OF assms])
  have 2: "load_template templates template_name = Inr (pad_truncate rows width)"
    by (rule load_template_eq [OF assms(2-4)])
  have 3: "\<forall>day<GITHUB_DAYS. \<forall>week<GITHUB_WEEKS. pad_truncate rows width ! day ! week =
      (if day < length rows \<and> week < width then rows ! day ! week else 0)"
    using pad_truncate_nth [OF assms(4)] by blast
  have 4: "has_shape (pad_truncate rows width) 7 52"
    using pad_truncate_shape [OF assms(4)] by (simp add: GITHUB_DAYS_def GITHUB_WEEKS_def)
  have 5: "pad_truncate rows width = map (take 52) (take 7 rows)"
    if "length rows = 9 \<and> width = 60"
    using that by (simp add: pad_truncate_def GITHUB_DAYS_def GITHUB_WEEKS_def take_map)
  show ?thesis
    using 1 2 3 4 5 by blast
qed

theorem template_values_preserved_witness:
  "''wide'' \<noteq> [] \<and>
   map_of [(''wide'', replicate 9 (3 # replicate 59 1))] ''wide'' = Some (replicate 9 (3 # replicate 59 1)) \<and>
   list_all (\<lambda>r. length r = 60) (replicate 9 (3 # replicate 59 (1 :: int))) \<and>
   load_and_process_image (\<lambda>img size. []) [(''wide'', replicate 9 (3 # replicate 59 1))] []
       (Some ''wide'') = Inr (replicate 7 (3 # replicate 51 1))"
proof -
  let ?rows = "replicate 9 (3 # replicate 59 (1 :: int))"
  have a: "''wide'' \<noteq> []" and b: "map_of [(''wide'', ?rows)] ''wide'' = Some ?rows"
    and c: "?rows \<noteq> []" and d: "list_all (\<lambda>r. length r = 60) ?rows"
    by (simp_all add: list_all_iff)
  obtain g where g: "load_and_process_image (\<lambda>img size. []) [(''wide'', ?rows)] [] (Some ''wide'') = Inr g"
    and s: "length ?rows = 9 \<and> (60 :: nat) = 60 \<longrightarrow> g = map (take 52) (take 7 ?rows)"
    using template_values_preserved [OF a b c d, of "\<lambda>img size. []" "[]"] by blast
  from s have "g = replicate 7 (3 # replicate 51 1)" by simp
  with g a b d show ?thesis by simp
qed

text \<open>
  Claim C10. Without a template, a cell has intensity 4 only for the resampled byte 0:
  the bytes 1 to 63 give 3, 64 to 127 give 2, 128 to 191 give 1 and 192 to 255 give 0,
  so the four lower levels cover 63 or 64 bytes each and the top level a single one.
\<close>

theorem top_intensity_only_for_black:
  "(quantize_pixel v = 4) = (v = 0) \<and>
   (quantize_pixel v = 3) = (1 \<le> unat v \<and> unat v \<le> 63) \<and>
   (quantize_pixel v = 2) = (64 \<le> unat v \<and> unat v \<le> 127) \<and>
   (quantize_pixel v = 1) = (128 \<le> unat v \<and> unat v \<le> 191) \<and>
   (quantize_pixel v = 0) = (192 \<le> unat v \<and> unat v \<le> 255) \<and>
   quantize_pixel v = \<lfloor>real (255 - unat v) / 255 * 4\<rfloor>"
proof -
  have "(unat v = 0) = (v = 0)" by (simp add: unat_eq_0)
  moreover have "quantize_pixel v = \<lfloor>real (255 - unat v) / 255 * 4\<rfloor>"
    by (simp add: quantize_pixel_def unat_invert MAX_INTENSITY_def)
  ultimately show ?thesis
    using quantize_pixel_buckets [of v] unat_byte [of v] by simp
qed

section \<open>The empty schedule\<close>

text \<open>
  Claim C8. For a grid of 7 by 52 zeros and every week offset whose offset date exists
  in the calendar, \<open>generate_commit_dates\<close> returns the empty list, and \<open>push_to_github\<close>
  (with git available) ends by reporting that there are no commits to create: it returns
  before any commit is made, whatever the dry-run flag and the user's answer, and no
  exception is raised.
\<close>

theorem all_zero_grid_is_a_no_op:
  assumes "load_and_process_image resize templates img template = Inr m"
    and "has_shape m GITHUB_DAYS GITHUB_WEEKS"
    and "list_all (list_all (\<lambda>v. v = 0)) m"
    and "anchor_in_range today weeks_ago"
  shows "generate_commit_dates today m weeks_ago = Inr [] \<and>
     push_to_github True today resize templates img template weeks_ago dry_run confirmed =
       NoCommits"
proof -
  have zero: "m ! day ! week = 0" if "day < GITHUB_DAYS" "week < GITHUB_WEEKS" for day week
    using assms(2,3) that by (simp add: has_shape_def list_all_length)
  have "generate_commit_dates today m weeks_ago =
      Inr (grid_events (today\<lparr>ordinal :=
        sunday_on_or_before (ordinal today - 7 * (52 + weeks_ago))\<rparr>) m)"
    by (rule generate_commit_dates_eq [OF assms(2,4)]) (simp add: zero)
  then have g: "generate_commit_dates today m weeks_ago = Inr []"
    by (simp add: grid_events_all_zero [OF assms(2,3)])
  then show ?thesis
    by (simp add: push_to_github_def assms(1))
qed

theorem all_zero_grid_is_a_no_op_witness:
  "load_and_process_image (\<lambda>img size. replicate 7 (replicate 52 255)) [] [[255]] None =
     Inr (replicate 7 (replicate 52 0)) \<and>
   anchor_in_range \<lparr>ordinal = 739923, hour = 8, minute = 0, second = 0, microsecond = 0\<rparr> 10 \<and>
   generate_commit_dates \<lparr>ordinal = 739923, hour = 8, minute = 0, second = 0, microsecond = 0\<rparr>
     (replicate 7 (replicate 52 0)) 10 = Inr [] \<and>
   push_to_github True \<lparr>ordinal = 739923, hour = 8, minute = 0, second = 0, microsecond = 0\<rparr>
     (\<lambda>img size. replicate 7 (replicate 52 255)) [] [[255]] None 10 False True = NoCommits"
proof -
  let ?t = "\<lparr>ordinal = 739923, hour = 8, minute = 0, second = 0, microsecond = 0\<rparr>"
  let ?white = "\<lambda>(img :: 8 word list list) (size :: nat \<times> nat). replicate 7 (replicate 52 (255 :: 8 word))"
  have q: "\<lfloor>(0::real) / 255 * 4\<rfloor> = 0" by simp
  have a: "load_and_process_image ?white [] [[255]] None = Inr (replicate 7 (replicate 52 0))"
    by (simp add: load_and_process_image_def quantize_pixel_def)
  have b: "has_shape (replicate 7 (replicate 52 (0::int))) GITHUB_DAYS GITHUB_WEEKS"
    by (simp add: has_shape_def list_all_iff GITHUB_DAYS_def GITHUB_WEEKS_def)
  have c: "list_all (list_all (\<lambda>v. v = 0)) (replicate 7 (replicate 52 (0::int)))"
    by (simp add: list_all_iff)
  have d: "anchor_in_range ?t 10"
    by (simp add: anchor_in_range_def valid_datetime_def MAXORD_def)
  show ?thesis
    using a d all_zero_grid_is_a_no_op [OF a b c d, of False True] by simp
qed

section \<open>Exporting and importing the registry\<close>

text \<open>
  Claim C9. For every registry a process can hold, \<open>export_templates\<close> to a writable
  path followed by \<open>import_templates\<close> of that path into the registry of a new generator
  gives a registry with the same mapping from names to patterns (and one entry per
  name); imported into an empty registry it gives the very same list of items.
\<close>

theorem export_import_round_trip:
  assumes "registry_state r"
  shows "\<exists>fs' r'.
      export_templates r fs True json_path = (fs', Exported (length r)) \<and>
      import_templates builtin_templates fs' json_path = (r', Imported (length r)) \<and>
      map_of r' = map_of r \<and> distinct (map fst r') \<and>
      import_templates [] fs' json_path = (r, Imported (length r))"
proof -
  define fs' where "fs' = fs(json_path \<mapsto> Json (JObject r))"
  have dist: "distinct (map fst r)" and sub: "fst ` set builtin_templates \<subseteq> fst ` set r"
    using registry_state_inv [OF assms] .
  have e: "export_templates r fs True json_path = (fs', Exported (length r))"
    by (simp add: export_templates_def fs'_def)
  have empty: "dict_update [] r = r"
    using dict_update_append [of "[]" r] dist by simp
  have i: "import_templates builtin_templates fs' json_path =
      (dict_update builtin_templates r, Imported (length r))"
    by (simp add: import_templates_def fs'_def empty)
  have i0: "import_templates [] fs' json_path = (r, Imported (length r))"
    by (simp add: import_templates_def fs'_def empty)
  have "dom (map_of builtin_templates) \<subseteq> dom (map_of r)"
    using sub by (simp add: dom_map_of_conv_image_fst)
  then have "map_of builtin_templates ++ map_of r = map_of r"
    by (auto simp: map_add_def fun_eq_iff split: option.splits)
  then have m: "map_of (dict_update builtin_templates r) = map_of r"
    by (simp add: map_of_dict_update [OF dist])
  have d: "distinct (map fst (dict_update builtin_templates r))"
    by (rule dict_update_distinct [OF builtin_distinct])
  show ?thesis
    using e i i0 m d by blast
qed

theorem export_import_round_trip_witness:
  "registry_state (dict_update builtin_templates [(''dot'', [[1, 2], [3, 4]]), (''heart'', [[4]])]) \<and>
   (\<exists>fs' r'.
      export_templates (dict_update builtin_templates [(''dot'', [[1, 2], [3, 4]]), (''heart'', [[4]])])
        Map.empty True ''art.json'' = (fs', Exported 6) \<and>
      import_templates builtin_templates fs' ''art.json'' = (r', Imported 6) \<and>
      map_of r' ''heart'' = Some [[4]] \<and>
      map_of r' ''dot'' = Some [[1, 2], [3, 4]] \<and>
      map_of r' ''skull'' = map_of builtin_templates ''skull'')"
proof -
  let ?r = "dict_update builtin_templates [(''dot'', [[1, 2], [3, 4]]), (''heart'', [[4]])]"
  have s: "registry_state ?r"
    by (rule registry_state.imported [OF registry_state.fresh])
  have n: "length ?r = 6"
    by (simp add: dict_update_def builtin_templates_def)
  have m: "map_of ?r ''heart'' = Some [[4]]" "map_of ?r ''dot'' = Some [[1, 2], [3, 4]]"
    "map_of ?r ''skull'' = map_of builtin_templates ''skull''"
    by (simp_all add: dict_update_def builtin_templates_def)
  obtain fs' r' where
    "export_templates ?r Map.empty True ''art.json'' = (fs', Exported (length ?r))"
    "import_templates builtin_templates fs' ''art.json'' = (r', Imported (length ?r))"
    "map_of r' = map_of ?r"
    using export_import_round_trip [OF s, of Map.empty "''art.json''"] by blast
  with s n m show ?thesis by auto
qed

end
